theory Spec2Isabelle
  imports Main "HOL-Library.Word"
begin

unbundle bit_operations_syntax

section \<open>Shared vocabulary of the wrappers\<close>

text \<open>
  Every wrapper of the repository has the Go signature
  \<^verbatim>\<open>func(context.Context) (string, error)\<close>. A Go \<^verbatim>\<open>error\<close> is \<^verbatim>\<open>nil\<close> or
  a value; the values the wrappers themselves create are the sentinel
  \<^verbatim>\<open>ErrServiceUnavailable\<close>, the throttle's \<^verbatim>\<open>fmt.Errorf("too many calls")\<close> and the two
  errors of package context. Anything else comes from the wrapped operation.
\<close>

datatype error =
    ErrServiceUnavailable
  | ErrTooManyCalls
  | Canceled
  | DeadlineExceeded
  | Upstream string

type_synonym response = "string \<times> error option"

text \<open>
  \<^verbatim>\<open>time.Time\<close> is an instant, counted here in nanoseconds from the zero value of
  \<^verbatim>\<open>time.Time\<close> on one ideal time line (an unbounded integer: the range of the Go type is far
  beyond what a \<^verbatim>\<open>time.Duration\<close> can span). \<^verbatim>\<open>time.Duration\<close> is an \<^verbatim>\<open>int64\<close> of
  nanoseconds, and its arithmetic wraps around.
\<close>

type_synonym time = int
type_synonym duration = "64 word"

definition Second :: duration where
  "Second = 1000000000"

definition Add :: "time \<Rightarrow> duration \<Rightarrow> time" where
  "Add t d = t + sint d"

definition After :: "time \<Rightarrow> time \<Rightarrow> bool" where
  "After t u \<longleftrightarrow> u < t"

definition Before :: "time \<Rightarrow> time \<Rightarrow> bool" where
  "Before t u \<longleftrightarrow> t < u"

text \<open>
  A \<^verbatim>\<open>context.Context\<close>, as far as the wrappers look at it: the instant at which its
  \<^verbatim>\<open>Done\<close> channel is closed (if ever) and the error \<^verbatim>\<open>Err\<close> reports from then on.
  Before that instant \<^verbatim>\<open>Err\<close> is \<^verbatim>\<open>nil\<close>.
\<close>

record go_context =
  done_at :: "time option"
  cause :: error

definition Err :: "go_context \<Rightarrow> time \<Rightarrow> error option" where
  "Err ctx t = (case done_at ctx of
                  None \<Rightarrow> None
                | Some d \<Rightarrow> if d \<le> t then Some (cause ctx) else None)"

text \<open>
  The wrapped operation is opaque code with effects of its own. It is modelled as a
  function of the context it is given, the instant it is started at and its own hidden
  state; it yields its \<^verbatim>\<open>(string, error)\<close>, the time it took and its next hidden state.
  The world around a wrapper holds the clock read by \<^verbatim>\<open>time.Now()\<close>, the log of the
  contexts the wrapped operation was invoked with (oldest first) and that hidden state.
\<close>

type_synonym 'e operation = "go_context \<Rightarrow> time \<Rightarrow> 'e \<Rightarrow> response \<times> nat \<times> 'e"

record 'e world =
  clock :: time
  calls :: "go_context list"
  env :: 'e

definition invoke :: "'e operation \<Rightarrow> go_context \<Rightarrow> 'e world \<Rightarrow> response \<times> 'e world" where
  "invoke f ctx w =
     (case f ctx (clock w) (env w) of
        (res, took, e') \<Rightarrow>
          (res, \<lparr>clock = clock w + int took, calls = calls w @ [ctx], env = e'\<rparr>))"

section \<open>Retry\<close>

text \<open>
  \<^verbatim>\<open>
  func Retry(effector Effector, maxRetries int, delay time.Duration) Effector {
      return func(ctx context.Context) (string, error) {
          for r := 0; ; r++ {
              response, err := effector(ctx)
              if err != nil || r >= maxRetries {
                  return response, err
              }
              log.Printf("Attempt %d failed; retrying in %v", r+1, delay)
          }
      }
  }
  \<close>
  The loop counter is only incremented while it is below \<^verbatim>\<open>maxRetries\<close>, so it cannot
  overflow and both are plain integers here. \<^verbatim>\<open>delay\<close> is only printed.
\<close>

function retry_loop ::
  "'e operation \<Rightarrow> int \<Rightarrow> go_context \<Rightarrow> int \<Rightarrow> 'e world \<Rightarrow> response \<times> 'e world" where
  "retry_loop effector maxRetries ctx r w =
     (case invoke effector ctx w of
        (res, w') \<Rightarrow>
          if snd res \<noteq> None \<or> maxRetries \<le> r then (res, w')
          else retry_loop effector maxRetries ctx (r + 1) w')"
  by pat_completeness auto
termination
  by (relation "measure (\<lambda>(effector, maxRetries, ctx, r, w). nat (maxRetries - r))") auto

declare retry_loop.simps [simp del]

definition Retry ::
  "'e operation \<Rightarrow> int \<Rightarrow> duration \<Rightarrow> go_context \<Rightarrow> 'e world \<Rightarrow> response \<times> 'e world" where
  "Retry effector maxRetries delay ctx w = retry_loop effector maxRetries ctx 0 w"

text \<open>One invocation whose result is dropped: what an iteration that loops again does.\<close>

definition attempt :: "'e operation \<Rightarrow> go_context \<Rightarrow> 'e world \<Rightarrow> 'e world" where
  "attempt effector ctx w = snd (invoke effector ctx w)"

text \<open>An operation that fails on its first invocation and succeeds from then on.\<close>

definition fails_once :: "nat operation" where
  "fails_once ctx t n =
     (if n = 0 then (([], Some (Upstream ''transient'')), 0, Suc n)
      else ((''ok'', None), 0, Suc n))"

definition always_ok :: "nat operation" where
  "always_ok ctx t n = ((''ok'', None), 1, Suc n)"

definition always_fails :: "nat operation" where
  "always_fails ctx t n = (([], Some (Upstream ''down'')), 1, Suc n)"

definition background :: go_context where
  "background = \<lparr>done_at = None, cause = Canceled\<rparr>"

definition world0 :: "nat world" where
  "world0 = \<lparr>clock = 0, calls = [], env = 0\<rparr>"

section \<open>Circuit breaker\<close>

text \<open>
  \<^verbatim>\<open>
  func Breaker(circuit Circuit, threshold int) Circuit {
      var (
          failures int
          last     time.Time
          mu       sync.RWMutex
      )
      return func(ctx context.Context) (string, error) {
          mu.RLock()
          d := failures - threshold
          if d >= 0 {
              shouldRetryAt := last.Add((2 << d) * time.Second)
              if !time.Now().After(shouldRetryAt) {
                  mu.RUnlock()
                  return "", ErrServiceUnavailable
              }
          }
          mu.RUnlock()
          response, err := circuit(ctx)
          mu.Lock()
          defer mu.Unlock()
          last = time.Now()
          if err != nil {
              failures++
              return response, err
          }
          failures = 0
          return response, nil
      }
  }
  \<close>
  The closure's variables are the record \<open>breaker_state\<close>; one call of the closure, run
  without interleaving, is the function \<open>Breaker\<close>. \<^verbatim>\<open>int\<close> is the 64-bit integer of the
  usual platforms. In \<^verbatim>\<open>(2 << d) * time.Second\<close> the untyped constant 2 takes the type of
  its context, \<^verbatim>\<open>time.Duration\<close>: both the shift and the product are 64-bit operations
  that wrap around, and a shift by 64 or more yields 0.
\<close>

record breaker_state =
  failures :: "64 word"
  last :: time

definition breaker_init :: breaker_state where
  "breaker_init = \<lparr>failures = 0, last = 0\<rparr>"

definition cooldown :: "64 word \<Rightarrow> duration" where
  "cooldown d = push_bit (nat (sint d)) 2 * Second"

definition Breaker ::
  "'e operation \<Rightarrow> 64 word \<Rightarrow> go_context \<Rightarrow> breaker_state \<Rightarrow> 'e world
     \<Rightarrow> response \<times> breaker_state \<times> 'e world" where
  "Breaker circuit threshold ctx s w =
     (let d = failures s - threshold in
      if 0 \<le> sint d \<and> \<not> After (clock w) (Add (last s) (cooldown d))
      then (([], Some ErrServiceUnavailable), s, w)
      else
        (case invoke circuit ctx w of
           ((response, err), w') \<Rightarrow>
             (case err of
                Some e \<Rightarrow>
                  ((response, Some e), s\<lparr>last := clock w', failures := failures s + 1\<rparr>, w')
              | None \<Rightarrow>
                  ((response, None), s\<lparr>last := clock w', failures := 0\<rparr>, w'))))"

section \<open>Throttle\<close>

text \<open>
  \<^verbatim>\<open>
  func Throttle(effector Effector, max uint, refill uint, d time.Duration) Effector {
      var (
          tokens = max
          once   sync.Once
          mu     sync.Mutex
      )
      return func(ctx context.Context) (string, error) {
          if ctx.Err() != nil {
              return "", ctx.Err()
          }
          once.Do(func() {
              ticker := time.NewTicker(d)
              go func() {
                  defer ticker.Stop()
                  for {
                      select {
                      case <-ctx.Done():
                          return
                      case <-ticker.C:
                          mu.Lock()
                          t := min(tokens+refill, max)
                          tokens = t
                          mu.Unlock()
                      }
                  }
              }()
          })
          mu.Lock()
          defer mu.Unlock()
          if tokens <= 0 {
              return "", fmt.Errorf("too many calls")
          }
          tokens--
          return effector(ctx)
      }
  }
  \<close>
  \<^verbatim>\<open>uint\<close> is the 64-bit unsigned integer; its sum wraps around. The closure's variables
  are the record \<open>throttle_state\<close>: \<open>once\<close> says that \<^verbatim>\<open>once.Do\<close> has run, \<open>ticker\<close> holds
  the context the refill goroutine is bound to while that goroutine lives.
  \<^verbatim>\<open>time.NewTicker\<close> panics on an interval that is not positive, and a \<^verbatim>\<open>sync.Once\<close>
  whose function panicked counts as done; the panic leaves the closure before the mutex
  is taken. The parameter \<^verbatim>\<open>max\<close> is written \<open>max'\<close>.
\<close>

datatype completion = Return response | Panic string

record throttle_state =
  tokens :: "64 word"
  once :: bool
  ticker :: "go_context option"

definition throttle_init :: "64 word \<Rightarrow> throttle_state" where
  "throttle_init max' = \<lparr>tokens = max', once = False, ticker = None\<rparr>"

text \<open>The body of the \<^verbatim>\<open>ticker.C\<close> case.\<close>

definition refill_tick :: "64 word \<Rightarrow> 64 word \<Rightarrow> throttle_state \<Rightarrow> throttle_state" where
  "refill_tick max' refill s = s\<lparr>tokens := min (tokens s + refill) max'\<rparr>"

text \<open>What \<^verbatim>\<open>once.Do\<close> leaves behind when it does not panic.\<close>

definition start_refill :: "go_context \<Rightarrow> throttle_state \<Rightarrow> throttle_state" where
  "start_refill ctx s = (if once s then s else s\<lparr>once := True, ticker := Some ctx\<rparr>)"

definition Throttle ::
  "'e operation \<Rightarrow> 64 word \<Rightarrow> 64 word \<Rightarrow> duration \<Rightarrow> go_context \<Rightarrow> throttle_state
     \<Rightarrow> 'e world \<Rightarrow> completion \<times> throttle_state \<times> 'e world" where
  "Throttle effector max' refill d ctx s w =
     (case Err ctx (clock w) of
        Some e \<Rightarrow> (Return ([], Some e), s, w)
      | None \<Rightarrow>
          if \<not> once s \<and> sint d \<le> 0
          then (Panic ''non-positive interval for NewTicker'', s\<lparr>once := True\<rparr>, w)
          else
            (let s1 = start_refill ctx s in
             if tokens s1 \<le> 0 then (Return ([], Some ErrTooManyCalls), s1, w)
             else
               (case invoke effector ctx w of
                  (res, w') \<Rightarrow> (Return res, s1\<lparr>tokens := tokens s1 - 1\<rparr>, w'))))"




section \<open>Debounce, leading edge with a cached result\<close>

text \<open>
  \<^verbatim>\<open>
  func DebounceFirst(circuit Circuit, d time.Duration) Circuit {
      var (
          threshold time.Time
          result    string
          err       error
          mu        sync.Mutex
      )
      return func(ctx context.Context) (string, error) {
          mu.Lock()
          defer mu.Unlock()
          if time.Now().Before(threshold) {
              return result, err
          }
          result, err = circuit(ctx)
          threshold = time.Now().Add(d)
          return result, err
      }
  }
  \<close>
  The mutex is held for the whole call, so calls do not interleave.
\<close>

record debounce_state =
  threshold :: time
  result :: string
  err :: "error option"

definition debounce_init :: debounce_state where
  "debounce_init = \<lparr>threshold = 0, result = [], err = None\<rparr>"

definition DebounceFirst ::
  "'e operation \<Rightarrow> duration \<Rightarrow> go_context \<Rightarrow> debounce_state \<Rightarrow> 'e world
     \<Rightarrow> response \<times> debounce_state \<times> 'e world" where
  "DebounceFirst circuit d ctx s w =
     (if Before (clock w) (threshold s) then ((result s, err s), s, w)
      else
        (case invoke circuit ctx w of
           ((res, e), w') \<Rightarrow>
             ((res, e), \<lparr>threshold = Add (clock w') d, result = res, err = e\<rparr>, w')))"

section \<open>Timeout\<close>

text \<open>
  \<^verbatim>\<open>
  type SlowFunction func(string) (string, error)
  type WithContext func(context.Context, string) (string, error)

  func Timeout(fn SlowFunction) WithContext {
      return func(ctx context.Context, arg string) (string, error) {
          ch := make(chan struct { result string; err error }, 1)
          go func() {
              res, err := fn(arg)
              ch <- struct { result string; err error }{res, err}
          }()
          select {
          case res := <-ch:
              return res.result, res.err
          case <-ctx.Done():
              return "", ctx.Err()
          }
      }
  }

  func TimeoutWithPrecheck(fn SlowFunction) WithContext {
      return func(ctx context.Context, arg string) (string, error) {
          if err := ctx.Err(); err != nil {
              return "", err
          }
          ch := make(chan ..., 1)
          go func() { res, err := fn(arg); ch <- ...{res, err} }()
          select {
          case res := <-ch:
              return res.result, res.err
          case <-ctx.Done():
              return "", ctx.Err()
          }
      }
  }
  \<close>
  The race is modelled on the time line of the caller, who enters its \<^verbatim>\<open>select\<close> at
  \<open>now\<close>. A slow function yields its \<^verbatim>\<open>(string, error)\<close> and the time \<open>k\<close> after which the
  worker goroutine has put it into the buffered channel, or \<open>None\<close> when it never returns;
  it has no access to the context, so nothing can stop it, and the result is put into the
  channel at \<open>now + k\<close> whether or not anybody still receives. Nothing in the code orders
  the goroutine's send after the caller's \<^verbatim>\<open>select\<close>: \<open>k = 0\<close> is the run in which the
  result is already in the channel when the caller gets there. A \<^verbatim>\<open>select\<close> waits for the
  first instant at which one of its cases is ready and takes it; when both are ready at
  that instant, either may be taken, so the model yields the set of possible runs (empty
  when the caller blocks for ever).
\<close>

type_synonym slow_function = "string \<Rightarrow> (response \<times> nat) option"

record timeout_run =
  returned :: response
  returned_at :: time
  started :: bool
  posted :: "(time \<times> response) option"

definition select_first ::
  "time \<Rightarrow> (time \<times> 'a) option \<Rightarrow> (time \<times> 'a) option \<Rightarrow> (time \<times> 'a) set" where
  "select_first now c1 c2 =
     (case (c1, c2) of
        (None, None) \<Rightarrow> {}
      | (Some (t1, a), None) \<Rightarrow> {(max now t1, a)}
      | (None, Some (t2, b)) \<Rightarrow> {(max now t2, b)}
      | (Some (t1, a), Some (t2, b)) \<Rightarrow>
          if max now t1 < max now t2 then {(max now t1, a)}
          else if max now t2 < max now t1 then {(max now t2, b)}
          else {(max now t1, a), (max now t2, b)})"

text \<open>The goroutine: when the channel receives which value.\<close>

definition worker :: "slow_function \<Rightarrow> string \<Rightarrow> time \<Rightarrow> (time \<times> response) option" where
  "worker fn arg now = map_option (\<lambda>(res, k). (now + int k, res)) (fn arg)"

text \<open>The \<^verbatim>\<open>ctx.Done()\<close> case: when it is ready and what its branch returns.\<close>

definition done_case :: "go_context \<Rightarrow> (time \<times> response) option" where
  "done_case ctx = map_option (\<lambda>t. (t, ([], Some (cause ctx)))) (done_at ctx)"

definition Timeout :: "slow_function \<Rightarrow> go_context \<Rightarrow> string \<Rightarrow> time \<Rightarrow> timeout_run set" where
  "Timeout fn ctx arg now =
     (let ch = worker fn arg now in
      (\<lambda>(t, res). \<lparr>returned = res, returned_at = t, started = True, posted = ch\<rparr>) `
        select_first now ch (done_case ctx))"

definition TimeoutWithPrecheck ::
  "slow_function \<Rightarrow> go_context \<Rightarrow> string \<Rightarrow> time \<Rightarrow> timeout_run set" where
  "TimeoutWithPrecheck fn ctx arg now =
     (case Err ctx now of
        Some e \<Rightarrow> {\<lparr>returned = ([], Some e), returned_at = now, started = False, posted = None\<rparr>}
      | None \<Rightarrow>
          (let ch = worker fn arg now in
           (\<lambda>(t, res). \<lparr>returned = res, returned_at = t, started = True, posted = ch\<rparr>) `
             select_first now ch (done_case ctx)))"

definition slow_echo :: slow_function where
  "slow_echo arg = Some ((arg, None), 9)"


definition never_returns :: slow_function where
  "never_returns arg = None"

definition deadline :: "time \<Rightarrow> go_context" where
  "deadline t = \<lparr>done_at = Some t, cause = DeadlineExceeded\<rparr>"

section \<open>Debounce, trailing edge\<close>

text \<open>
  \<^verbatim>\<open>
  func DebounceLast(circuit Circuit, d time.Duration) Circuit {
      var (
          mu     sync.Mutex
          timer  *time.Timer
          cctx   context.Context
          cancel context.CancelFunc
      )
      return func(ctx context.Context) (string, error) {
          mu.Lock()
          if timer != nil {
              timer.Stop()
              cancel()
          }
          cctx, cancel = context.WithCancel(ctx)
          ch := make(chan struct { result string; err error }, 1)
          timer = time.AfterFunc(d, func() {
              r, e := circuit(cctx)
              ch <- struct { result string; err error }{r, e}
          })
          mu.Unlock()
          select {
          case res := <-ch:
              return res.result, res.err
          case <-cctx.Done():
              return "", cctx.Err()
          }
      }
  }
  \<close>
  A call of the closure blocks in its \<^verbatim>\<open>select\<close> while later calls arrive, so one call is
  not one function here. The model is a machine with two steps. \<open>enter\<close> is the section
  under the mutex, run at the instant the call arrives. \<open>advance\<close> lets time pass and
  runs the timer's function if the timer comes due meanwhile; that function runs
  \<^verbatim>\<open>circuit\<close> without interleaving with an arriving call. Each call leaves a record in the
  history (latest first): the context it was given, the instant it entered, the instant
  its \<^verbatim>\<open>cancel\<close> was first called, and what its channel received when. What a caller
  returns is read off the history with the \<^verbatim>\<open>select\<close> of the timeouts above, entered at
  the instant of arrival. The caller reads the shared variable \<^verbatim>\<open>cctx\<close> twice, outside the
  mutex. The first read, \<^verbatim>\<open>cctx.Done()\<close>, happens right after the caller has left the
  mutex; the model takes it to yield the context the caller has just made, that is, no
  other call gets the mutex in between. The second read, \<^verbatim>\<open>cctx.Err()\<close>, happens when
  that context is done and the case is taken. By then a later call may have assigned its
  own context to the variable: a successor calls \<^verbatim>\<open>cancel()\<close> and assigns \<^verbatim>\<open>cctx\<close> in the
  same section under the mutex. The model reads the variable as the sections entered up to
  that instant have left it: it holds the context of the latest call entered by then.

  Only the latest timer can be armed (a call stops the timer it replaces), and its
  function reads the shared \<^verbatim>\<open>cctx\<close>, which is then the context of the latest call.
  A context made by \<^verbatim>\<open>context.WithCancel\<close> is done when its parent is done or its
  \<^verbatim>\<open>cancel\<close> is called, whichever is first, and reports the parent's error in the first
  case and \<^verbatim>\<open>context.Canceled\<close> in the second; before its \<^verbatim>\<open>cancel\<close> is called it behaves
  as its parent.
\<close>

datatype timer_state = NoTimer | Armed time | Spent

record dl_call =
  parent :: go_context
  entered :: time
  cancelled :: "time option"
  delivered :: "(time \<times> response) option"

record dl_state =
  timer :: timer_state
  history :: "dl_call list"

definition dl_init :: dl_state where
  "dl_init = \<lparr>timer = NoTimer, history = []\<rparr>"

definition cctx_of :: "dl_call \<Rightarrow> go_context" where
  "cctx_of c =
     (case cancelled c of
        None \<Rightarrow> parent c
      | Some t \<Rightarrow>
          (case done_at (parent c) of
             None \<Rightarrow> \<lparr>done_at = Some t, cause = Canceled\<rparr>
           | Some p \<Rightarrow> if p \<le> t then parent c else \<lparr>done_at = Some t, cause = Canceled\<rparr>))"

definition cancel_call :: "time \<Rightarrow> dl_call \<Rightarrow> dl_call" where
  "cancel_call t c = (case cancelled c of None \<Rightarrow> c\<lparr>cancelled := Some t\<rparr> | Some u \<Rightarrow> c)"

text \<open>
  \<^verbatim>\<open>if timer != nil { timer.Stop(); cancel() }\<close>: the history after the previous call,
  which is the owner of \<^verbatim>\<open>cancel\<close>, has been cancelled at instant \<open>t\<close>.
\<close>

definition stop_previous :: "time \<Rightarrow> dl_state \<Rightarrow> dl_call list" where
  "stop_previous t s =
     (if timer s \<noteq> NoTimer
      then (case history s of [] \<Rightarrow> [] | c # cs \<Rightarrow> cancel_call t c # cs)
      else history s)"

definition enter :: "duration \<Rightarrow> go_context \<Rightarrow> dl_state \<Rightarrow> 'e world \<Rightarrow> dl_state" where
  "enter d ctx s w =
     \<lparr>timer = Armed (Add (clock w) d),
      history = \<lparr>parent = ctx, entered = clock w, cancelled = None, delivered = None\<rparr> #
                stop_previous (clock w) s\<rparr>"

definition fire :: "'e operation \<Rightarrow> dl_state \<Rightarrow> 'e world \<Rightarrow> dl_state \<times> 'e world" where
  "fire circuit s w =
     (case history s of
        [] \<Rightarrow> (s, w)
      | c # cs \<Rightarrow>
          (case invoke circuit (cctx_of c) w of
             (res, w') \<Rightarrow>
               (\<lparr>timer = Spent, history = c\<lparr>delivered := Some (clock w', res)\<rparr> # cs\<rparr>, w')))"

definition advance ::
  "'e operation \<Rightarrow> nat \<Rightarrow> dl_state \<Rightarrow> 'e world \<Rightarrow> dl_state \<times> 'e world" where
  "advance circuit n s w =
     (let target = clock w + int n in
      case timer s of
        Armed due \<Rightarrow>
          if due \<le> target
          then (case fire circuit s (w\<lparr>clock := max (clock w) due\<rparr>) of
                  (s', w') \<Rightarrow> (s', w'\<lparr>clock := max (clock w') target\<rparr>))
          else (s, w\<lparr>clock := target\<rparr>)
      | NoTimer \<Rightarrow> (s, w\<lparr>clock := target\<rparr>)
      | Spent \<Rightarrow> (s, w\<lparr>clock := target\<rparr>))"

text \<open>The shared variable \<^verbatim>\<open>cctx\<close> at instant \<open>t\<close>: the context of the latest call entered by then.\<close>

definition shared_cctx :: "dl_call list \<Rightarrow> time \<Rightarrow> go_context option" where
  "shared_cctx h t = map_option cctx_of (find (\<lambda>c. entered c \<le> t) h)"

text \<open>
  The \<^verbatim>\<open>cctx.Done()\<close> case of a caller: ready when the caller's own derived context is
  done; its branch returns \<^verbatim>\<open>cctx.Err()\<close> of the shared variable, read at the instant the
  case is taken.
\<close>

definition cancelled_case :: "dl_call list \<Rightarrow> dl_call \<Rightarrow> (time \<times> response) option" where
  "cancelled_case h c =
     map_option
       (\<lambda>t. (t, ([], case shared_cctx h (max (entered c) t) of
                       None \<Rightarrow> None
                     | Some x \<Rightarrow> Err x (max (entered c) t))))
       (done_at (cctx_of c))"

definition returns_of :: "dl_call list \<Rightarrow> dl_call \<Rightarrow> (time \<times> response) set" where
  "returns_of h c = select_first (entered c) (delivered c) (cancelled_case h c)"

text \<open>
  A burst: calls given by their context and the time that passes after their arrival
  (until the next arrival, or after the last one).
\<close>

fun burst ::
  "'e operation \<Rightarrow> duration \<Rightarrow> (go_context \<times> nat) list \<Rightarrow> dl_state \<times> 'e world
     \<Rightarrow> dl_state \<times> 'e world" where
  "burst circuit d [] st = st"
| "burst circuit d ((ctx, gap) # rest) (s, w) =
     burst circuit d rest (advance circuit gap (enter d ctx s w) w)"

text \<open>
  The records of calls that were each superseded after \<open>gap\<close> by the next arrival, in
  the order of arrival, the first one arriving at \<open>t\<close>.
\<close>

fun superseded :: "(go_context \<times> nat) list \<Rightarrow> time \<Rightarrow> dl_call list" where
  "superseded [] t = []"
| "superseded ((ctx, gap) # rest) t =
     \<lparr>parent = ctx, entered = t, cancelled = Some (t + int gap), delivered = None\<rparr> #
     superseded rest (t + int gap)"

section \<open>Properties of Retry\<close>

lemma fst_invoke: "fst (invoke f ctx w) = fst (f ctx (clock w) (env w))"
  by (simp add: invoke_def split: prod.splits)

lemma calls_invoke: "calls (snd (invoke f ctx w)) = calls w @ [ctx]"
  by (simp add: invoke_def split: prod.splits)

lemma calls_attempt: "calls (attempt f ctx w) = calls w @ [ctx]"
  by (simp add: attempt_def calls_invoke)

lemma calls_attempts: "calls ((attempt f ctx ^^ n) w) = calls w @ replicate n ctx"
  by (induction n) (simp_all add: calls_attempt replicate_append_same)

text \<open>
  With an effector that never fails, the loop started at counter \<open>r\<close> drops the results
  of \<open>maxRetries - r\<close> invocations and returns what the next one yields.
\<close>

lemma retry_loop_ok:
  "\<forall>c t e. snd (fst (effector c t e)) = None \<Longrightarrow> r \<le> maxRetries \<Longrightarrow>
     retry_loop effector maxRetries ctx r w =
       invoke effector ctx ((attempt effector ctx ^^ nat (maxRetries - r)) w)"
proof (induction effector maxRetries ctx r w rule: retry_loop.induct)
  case (1 effector maxRetries ctx r w)
  obtain res w' where inv: "invoke effector ctx w = (res, w')"
    by (cases "invoke effector ctx w")
  have "snd (fst (invoke effector ctx w)) = None"
    using "1.prems"(1) by (simp add: fst_invoke)
  then have sres: "snd res = None"
    by (simp add: inv)
  show ?case
  proof (cases "maxRetries \<le> r")
    case True
    then have "maxRetries = r"
      using "1.prems"(2) by simp
    then show ?thesis
      by (subst retry_loop.simps) (simp add: inv sres)
  next
    case False
    then have n: "nat (maxRetries - r) = Suc (nat (maxRetries - (r + 1)))"
      by simp
    have ih: "retry_loop effector maxRetries ctx (r + 1) w' =
       invoke effector ctx ((attempt effector ctx ^^ nat (maxRetries - (r + 1))) w')"
      using "1.IH"[OF inv[symmetric]] "1.prems"(1) sres False by simp
    have a: "attempt effector ctx w = w'"
      by (simp add: attempt_def inv)
    show ?thesis
      by (subst retry_loop.simps)
         (simp add: inv sres False ih n funpow_Suc_right a del: funpow.simps)
  qed
qed

text \<open>
  The first iteration already returns when the effector fails: the loop leaves on
  \<^verbatim>\<open>err != nil\<close>, whatever the counter.
\<close>

lemma Retry_failure_returns_at_once:
  "invoke effector ctx w = ((response, Some e), w') \<Longrightarrow>
     Retry effector maxRetries delay ctx w = ((response, Some e), w')"
  by (simp add: Retry_def retry_loop.simps)

text \<open>
  C1 (the documented algorithm: re-invoke on failure, return the success that follows
  \<open>k < maxRetries\<close> failures, give up after \<open>maxRetries + 1\<close> invocations). The code does
  the opposite of its documentation ("retries the given Effector on failure", and the log
  line "Attempt %d failed; retrying" sits on the path taken after a success): with
  \<open>maxRetries = 3\<close>, an effector that fails once and would then succeed is invoked once
  and its failure is returned; an effector that always fails is invoked once, not four
  times.
\<close>

theorem Retry_returns_first_failure:
  "Retry fails_once 3 Second background world0 =
     (([], Some (Upstream ''transient'')), \<lparr>clock = 0, calls = [background], env = 1\<rparr>) \<and>
   Retry always_fails 3 Second background world0 =
     (([], Some (Upstream ''down'')), \<lparr>clock = 1, calls = [background], env = 1\<rparr>)"
  by (simp add: Retry_def retry_loop.simps invoke_def fails_once_def always_fails_def world0_def)

text \<open>
  C9: for an effector that never fails and \<open>maxRetries \<ge> 0\<close>, the wrapped call invokes
  the effector exactly \<open>maxRetries + 1\<close> times, each time with the caller's context, and
  returns the value, the error and the world of the last of these invocations: the first
  \<open>maxRetries\<close> successful results are dropped and the call is made again.
\<close>

theorem Retry_reinvokes_successes:
  assumes "\<forall>c t e. snd (fst (effector c t e)) = None" and "0 \<le> maxRetries"
  shows "Retry effector maxRetries delay ctx w =
           invoke effector ctx ((attempt effector ctx ^^ nat maxRetries) w) \<and>
         calls (snd (Retry effector maxRetries delay ctx w)) =
           calls w @ replicate (nat maxRetries + 1) ctx"
proof -
  have eq: "Retry effector maxRetries delay ctx w =
           invoke effector ctx ((attempt effector ctx ^^ nat maxRetries) w)"
    using retry_loop_ok[of effector 0 maxRetries ctx w] assms by (simp add: Retry_def)
  show ?thesis
    by (simp add: eq calls_invoke calls_attempts replicate_append_same)
qed

theorem Retry_reinvokes_successes_witness:
  "Retry always_ok 2 Second background world0 =
     ((''ok'', None), \<lparr>clock = 3, calls = [background, background, background], env = 3\<rparr>)"
  using Retry_reinvokes_successes [of always_ok 2 Second background world0]
  by (simp add: always_ok_def invoke_def attempt_def world0_def numeral_2_eq_2)

section \<open>Properties of the circuit breaker\<close>

lemma sint_small:
  fixes k :: int
  assumes "0 \<le> k" and "k < 2 ^ 63"
  shows "sint (word_of_int k :: 64 word) = k"
  using assms by (simp add: sint_sbintrunc' signed_take_bit_int_eq_self)

lemma pow_le_33: "n \<le> 32 \<Longrightarrow> (2::int) ^ (n + 1) \<le> 2 ^ 33"
  by (rule power_increasing) simp_all

text \<open>
  Up to an overflow of 32 the computed cool-down is the documented one,
  \<open>2 ^ (d + 1)\<close> seconds; \<open>2 ^ 34\<close> seconds no longer fit into a \<^verbatim>\<open>time.Duration\<close>.
\<close>

lemma cooldown_exact:
  assumes "0 \<le> sint d" and "sint d \<le> 32"
  shows "sint (cooldown d) = 2 ^ (nat (sint d) + 1) * 1000000000"
proof -
  define n where "n = nat (sint d)"
  have n: "n \<le> 32"
    using assms by (simp add: n_def)
  have w: "cooldown d = word_of_int (2 ^ (n + 1) * 1000000000)"
    by (simp add: cooldown_def Second_def n_def push_bit_eq_mult)
  have "(2::int) ^ (n + 1) * 1000000000 \<le> 2 ^ 33 * 1000000000"
    using pow_le_33[OF n] by simp
  then have b: "(2::int) ^ (n + 1) * 1000000000 < 2 ^ 63"
    by simp
  show ?thesis
    unfolding w using sint_small[OF _ b] by (simp add: n_def)
qed

text \<open>
  While the overflow \<open>failures - threshold\<close> lies between 0 and 32, a call made no later
  than \<open>last + 2 ^ (overflow + 1)\<close> seconds is rejected with the sentinel, the wrapped
  operation is not invoked (the world is unchanged) and the state is unchanged.
\<close>

lemma Breaker_open_rejects_bounded:
  assumes "0 \<le> sint (failures s - thr)" and "sint (failures s - thr) \<le> 32"
    and "clock w \<le> last s + 2 ^ (nat (sint (failures s - thr)) + 1) * 1000000000"
  shows "Breaker circuit thr ctx s w = (([], Some ErrServiceUnavailable), s, w)"
  using assms by (simp add: Breaker_def Let_def After_def Add_def cooldown_exact)

text \<open>
  C2 (a tripped breaker rejects every call made before
  \<open>last + 2 ^ (failures - threshold + 1)\<close> seconds, without invoking the operation and
  without touching its state). The cool-down is computed in 64-bit nanoseconds and wraps
  from an overflow of 33 on. With \<open>threshold = 1\<close> and \<open>failures = 34\<close> (34 callers admitted
  together, all failing), a call one second after the last attempt is let through to
  the operation although \<open>2 ^ 34\<close> seconds have not passed; so is the first call of a
  breaker made with \<open>threshold = -40\<close>, long before \<open>2 ^ 41\<close> seconds after the zero time.
\<close>

theorem Breaker_backoff_wraps:
  "Breaker always_fails 1 background \<lparr>failures = 34, last = 5000000000\<rparr>
      (world0\<lparr>clock := 6000000000\<rparr>) =
     (([], Some (Upstream ''down'')), \<lparr>failures = 35, last = 6000000001\<rparr>,
      \<lparr>clock = 6000000001, calls = [background], env = 1\<rparr>) \<and>
   (6000000000 :: int) \<le> 5000000000 + 2 ^ (34 - 1 + 1) * 1000000000 \<and>
   Breaker always_fails (- 40) background breaker_init
      (world0\<lparr>clock := 63900000000000000000\<rparr>) =
     (([], Some (Upstream ''down'')), \<lparr>failures = 1, last = 63900000000000000001\<rparr>,
      \<lparr>clock = 63900000000000000001, calls = [background], env = 1\<rparr>) \<and>
   (63900000000000000000 :: int) \<le> 0 + 2 ^ (0 + 40 + 1) * 1000000000"
  by (simp add: Breaker_def breaker_init_def cooldown_def Second_def Add_def After_def
      invoke_def always_fails_def world0_def)

text \<open>
  Go's \<^verbatim>\<open>failures++\<close> is the successor on the integers unless the counter holds the
  largest \<^verbatim>\<open>int\<close>.
\<close>

lemma sint_succ:
  fixes x :: "64 word"
  assumes "sint x < 2 ^ 63 - 1"
  shows "sint (x + 1) = sint x + 1"
proof -
  have lo: "- (2 ^ 63) \<le> sint x"
    using sint_ge[of x] by simp
  have "sint (x + 1) = signed_take_bit 63 (sint x + 1)"
    by (simp add: sint_word_ariths)
  also have "\<dots> = sint x + 1"
    using assms lo by (simp add: signed_take_bit_int_eq_self)
  finally show ?thesis .
qed

text \<open>
  C3: a call of the wrapped breaker either does not invoke the operation, and then leaves
  the failure counter, the timestamp and the world as they were (it is the rejection),
  or invokes it exactly once with the caller's context and returns its response and
  error verbatim; in that case the timestamp becomes the time read after the invocation,
  and the counter becomes 0 if the error is \<^verbatim>\<open>nil\<close> and is incremented by one (Go's
  \<^verbatim>\<open>failures++\<close> on a 64-bit \<^verbatim>\<open>int\<close>) if it is not.
\<close>

theorem Breaker_counter_and_timestamp:
  assumes "Breaker circuit thr ctx s w = (r, s', w')"
  shows "(calls w' = calls w \<and> w' = w \<and> s' = s \<and> r = ([], Some ErrServiceUnavailable)) \<or>
         (calls w' = calls w @ [ctx] \<and> invoke circuit ctx w = (r, w') \<and> last s' = clock w' \<and>
            (snd r = None \<and> failures s' = 0 \<or>
             snd r \<noteq> None \<and> failures s' = failures s + 1))"
proof (cases "0 \<le> sint (failures s - thr) \<and>
              \<not> After (clock w) (Add (last s) (cooldown (failures s - thr)))")
  case True
  then have "Breaker circuit thr ctx s w = (([], Some ErrServiceUnavailable), s, w)"
    by (simp add: Breaker_def Let_def)
  then show ?thesis
    using assms by simp
next
  case False
  obtain response failure w1 where inv: "invoke circuit ctx w = ((response, failure), w1)"
    by (metis prod.exhaust)
  have c: "calls w1 = calls w @ [ctx]"
    using calls_invoke[of circuit ctx w] by (simp add: inv)
  show ?thesis
  proof (cases failure)
    case None
    then have "Breaker circuit thr ctx s w =
        ((response, None), s\<lparr>last := clock w1, failures := 0\<rparr>, w1)"
      unfolding Breaker_def Let_def by (subst if_not_P[OF False]) (simp add: inv)
    then show ?thesis
      using assms c inv None by auto
  next
    case (Some e)
    then have "Breaker circuit thr ctx s w =
        ((response, Some e), s\<lparr>last := clock w1, failures := failures s + 1\<rparr>, w1)"
      unfolding Breaker_def Let_def by (subst if_not_P[OF False]) (simp add: inv)
    then show ?thesis
      using assms c inv Some by auto
  qed
qed

theorem Breaker_counter_and_timestamp_witness:
  "Breaker always_fails 2 background breaker_init world0 =
     (([], Some (Upstream ''down'')), \<lparr>failures = 1, last = 1\<rparr>,
      \<lparr>clock = 1, calls = [background], env = 1\<rparr>) \<and>
   invoke always_fails background world0 =
     (([], Some (Upstream ''down'')), \<lparr>clock = 1, calls = [background], env = 1\<rparr>)"
proof -
  have h: "Breaker always_fails 2 background breaker_init world0 =
     (([], Some (Upstream ''down'')), \<lparr>failures = 1, last = 1\<rparr>,
      \<lparr>clock = 1, calls = [background], env = 1\<rparr>)"
    by (simp add: Breaker_def breaker_init_def invoke_def always_fails_def world0_def)
  show ?thesis
    using Breaker_counter_and_timestamp [OF h] h by (simp add: world0_def)
qed

text \<open>
  The scenario of the specification: threshold 2, two failures are let through, the third
  call (inside the cool-down) is rejected, and the success after the cool-down resets
  the counter.
\<close>

lemma Breaker_scenario:
  "(let (r1, s1, w1) = Breaker always_fails 2 background breaker_init (world0\<lparr>clock := 10\<rparr>);
        (r2, s2, w2) = Breaker always_fails 2 background s1 w1;
        (r3, s3, w3) = Breaker always_fails 2 background s2 w2;
        (r4, s4, w4) = Breaker always_ok 2 background s3 (w3\<lparr>clock := 3000000000\<rparr>)
    in (snd r1, snd r2, snd r3, failures s3, length (calls w3), snd r4, failures s4)) =
   (Some (Upstream ''down''), Some (Upstream ''down''), Some ErrServiceUnavailable, 2, 2,
    None, 0)"
  by (simp add: Breaker_def breaker_init_def cooldown_def Second_def Add_def After_def
      invoke_def always_fails_def always_ok_def world0_def)

section \<open>Properties of the throttle\<close>


lemma tokens_start_refill: "tokens (start_refill ctx s) = tokens s"
  by (simp add: start_refill_def)




text \<open>
  The sum in \<^verbatim>\<open>min(tokens+refill, max)\<close> is Go's \<^verbatim>\<open>uint\<close> sum. As long as it does not
  wrap around, the refill is the one of the unbounded integers.
\<close>

lemma refill_exact:
  assumes "unat (tokens s) + unat refill < 2 ^ 64"
  shows "unat (tokens (refill_tick max' refill s)) =
           min (unat (tokens s) + unat refill) (unat max')"
proof -
  have "unat (tokens s + refill) = unat (tokens s) + unat refill"
    using assms by (simp add: unat_add_lem[THEN iffD1])
  then show ?thesis
    by (simp add: refill_tick_def min_def word_le_nat_alt)
qed


text \<open>
  C5 as stated fails on the first call of a throttle whose interval is not positive:
  the context is not cancelled and tokens are left, yet \<^verbatim>\<open>time.NewTicker\<close> panics inside
  \<^verbatim>\<open>once.Do\<close>; no token is consumed and the operation is not invoked.
\<close>

theorem Throttle_first_call_panics:
  "Err background (clock world0) = None \<and> tokens (throttle_init 2) \<noteq> 0 \<and>
   Throttle always_ok 2 1 0 background (throttle_init 2) world0 =
     (Panic ''non-positive interval for NewTicker'',
      \<lparr>tokens = 2, once = True, ticker = None\<rparr>, world0)"
  by (simp add: Throttle_def Err_def background_def throttle_init_def)

text \<open>
  C5, amended: a call whose context is already cancelled at entry returns the context's
  error; the state and the world are unchanged (no token consumed, no invocation).
  Otherwise, if the interval is positive or \<^verbatim>\<open>once.Do\<close> has already run: with a token count
  of zero the call is rejected with the rate-limit error, the token count and the world
  unchanged; with a positive count exactly one token is consumed, the operation is invoked
  once with the caller's context and its result is returned verbatim. Otherwise (first
  call past the context check, interval not positive) the call panics, with the token
  count and the world unchanged.
\<close>

theorem Throttle_admission:
  "(case Err ctx (clock w) of
      Some e \<Rightarrow> Throttle effector max' refill d ctx s w = (Return ([], Some e), s, w)
    | None \<Rightarrow>
        (once s \<or> 0 < sint d \<longrightarrow>
           (if tokens s = 0
            then Throttle effector max' refill d ctx s w =
                   (Return ([], Some ErrTooManyCalls), start_refill ctx s, w)
            else Throttle effector max' refill d ctx s w =
                   (Return (fst (invoke effector ctx w)),
                    (start_refill ctx s)\<lparr>tokens := tokens s - 1\<rparr>,
                    snd (invoke effector ctx w)) \<and>
                 unat (tokens s - 1) + 1 = unat (tokens s) \<and>
                 calls (snd (invoke effector ctx w)) = calls w @ [ctx])) \<and>
        (\<not> once s \<and> sint d \<le> 0 \<longrightarrow>
           Throttle effector max' refill d ctx s w =
             (Panic ''non-positive interval for NewTicker'', s\<lparr>once := True\<rparr>, w)))"
proof (cases "Err ctx (clock w)")
  case (Some e)
  then show ?thesis
    by (simp add: Throttle_def)
next
  case None
  have u: "unat (tokens s - 1) + 1 = unat (tokens s)" if "tokens s \<noteq> 0"
    using that by (simp add: unat_minus_one unat_gt_0)
  have p: "Throttle effector max' refill d ctx s w =
      (Panic ''non-positive interval for NewTicker'', s\<lparr>once := True\<rparr>, w)"
    if "\<not> once s \<and> sint d \<le> 0"
    using that None by (simp add: Throttle_def)
  have z: "Throttle effector max' refill d ctx s w =
      (Return ([], Some ErrTooManyCalls), start_refill ctx s, w)"
    if "once s \<or> 0 < sint d" and "tokens s = 0"
    using that None by (auto simp add: Throttle_def Let_def tokens_start_refill)
  have a: "Throttle effector max' refill d ctx s w =
      (Return (fst (invoke effector ctx w)), (start_refill ctx s)\<lparr>tokens := tokens s - 1\<rparr>,
       snd (invoke effector ctx w))"
    if "once s \<or> 0 < sint d" and "tokens s \<noteq> 0"
    using that None
    by (auto simp add: Throttle_def Let_def tokens_start_refill split: prod.splits)
  show ?thesis
    using None u p z a by (simp add: calls_invoke)
qed

theorem Throttle_admission_witness:
  "Throttle always_ok 2 1 Second background (throttle_init 2) world0 =
     (Return (''ok'', None), \<lparr>tokens = 1, once = True, ticker = Some background\<rparr>,
      \<lparr>clock = 1, calls = [background], env = 1\<rparr>)"
  using Throttle_admission [where s = "throttle_init 2" and d = Second and ctx = background
      and w = world0 and effector = always_ok and max' = 2 and refill = 1]
  by (simp add: Err_def background_def throttle_init_def Second_def start_refill_def
      invoke_def always_ok_def world0_def)

section \<open>Properties of DebounceFirst\<close>

lemma DebounceFirst_suppressed:
  "clock w < threshold s \<Longrightarrow> DebounceFirst circuit d ctx s w = ((result s, err s), s, w)"
  by (simp add: DebounceFirst_def Before_def)

lemma DebounceFirst_executed:
  assumes "\<not> clock w < threshold s" and "invoke circuit ctx w = (r, w')"
  shows "DebounceFirst circuit d ctx s w =
           (r, \<lparr>threshold = clock w' + sint d, result = fst r, err = snd r\<rparr>, w')"
  using assms by (cases r) (simp add: DebounceFirst_def Before_def Add_def)

text \<open>
  C6: a call arriving strictly before the next-allowed timestamp returns the cached pair
  and invokes nothing (state and world are unchanged). A call arriving at or after it
  invokes the operation once with the caller's context, returns and caches what it
  yields, and sets the next-allowed timestamp to the time read after the invocation plus
  the window; every later call arriving before that timestamp, whatever its context,
  returns exactly the pair of this executing call.
\<close>

theorem DebounceFirst_window:
  "(clock w < threshold s \<longrightarrow>
      DebounceFirst circuit d ctx s w = ((result s, err s), s, w)) \<and>
   (\<not> clock w < threshold s \<and> invoke circuit ctx w = (r, w') \<longrightarrow>
      DebounceFirst circuit d ctx s w =
        (r, \<lparr>threshold = clock w' + sint d, result = fst r, err = snd r\<rparr>, w') \<and>
      calls w' = calls w @ [ctx] \<and>
      (\<forall>ctx2 w2. clock w2 < clock w' + sint d \<longrightarrow>
         DebounceFirst circuit d ctx2
           \<lparr>threshold = clock w' + sint d, result = fst r, err = snd r\<rparr> w2 =
         (r, \<lparr>threshold = clock w' + sint d, result = fst r, err = snd r\<rparr>, w2)))"
proof (intro conjI impI)
  assume "clock w < threshold s"
  then show "DebounceFirst circuit d ctx s w = ((result s, err s), s, w)"
    by (rule DebounceFirst_suppressed)
next
  assume a: "\<not> clock w < threshold s \<and> invoke circuit ctx w = (r, w')"
  then show "DebounceFirst circuit d ctx s w =
        (r, \<lparr>threshold = clock w' + sint d, result = fst r, err = snd r\<rparr>, w')"
    by (simp add: DebounceFirst_executed)
  show "calls w' = calls w @ [ctx]"
    using a calls_invoke[of circuit ctx w] by simp
  show "\<forall>ctx2 w2. clock w2 < clock w' + sint d \<longrightarrow>
         DebounceFirst circuit d ctx2
           \<lparr>threshold = clock w' + sint d, result = fst r, err = snd r\<rparr> w2 =
         (r, \<lparr>threshold = clock w' + sint d, result = fst r, err = snd r\<rparr>, w2)"
    by (simp add: DebounceFirst_suppressed)
qed

theorem DebounceFirst_window_witness:
  "DebounceFirst always_fails Second background debounce_init (world0\<lparr>clock := 10\<rparr>) =
     (([], Some (Upstream ''down'')),
      \<lparr>threshold = 1000000011, result = [], err = Some (Upstream ''down'')\<rparr>,
      \<lparr>clock = 11, calls = [background], env = 1\<rparr>) \<and>
   DebounceFirst always_fails Second background
      \<lparr>threshold = 1000000011, result = [], err = Some (Upstream ''down'')\<rparr>
      \<lparr>clock = 500, calls = [background], env = 1\<rparr> =
     (([], Some (Upstream ''down'')),
      \<lparr>threshold = 1000000011, result = [], err = Some (Upstream ''down'')\<rparr>,
      \<lparr>clock = 500, calls = [background], env = 1\<rparr>)"
proof -
  have i: "invoke always_fails background (world0\<lparr>clock := 10\<rparr>) =
      (([], Some (Upstream ''down'')), \<lparr>clock = 11, calls = [background], env = 1\<rparr>)"
    by (simp add: invoke_def always_fails_def world0_def)
  have n: "\<not> clock (world0\<lparr>clock := 10\<rparr>) < threshold debounce_init"
    by (simp add: debounce_init_def)
  show ?thesis
    using DebounceFirst_window [where w = "world0\<lparr>clock := 10\<rparr>" and s = debounce_init
        and circuit = always_fails and ctx = background and d = Second
        and r = "([], Some (Upstream ''down''))"
        and w' = "\<lparr>clock = 11, calls = [background], env = 1\<rparr>"] i n
    by (auto simp add: Second_def)
qed

section \<open>Properties of the timeouts\<close>




text \<open>
  C10: when the context is not done at entry, the two variants have the same possible
  runs, and every run starts the worker. When it is done at entry, \<open>TimeoutWithPrecheck\<close>
  returns the context's error at once without starting the worker, whereas every run of
  \<open>Timeout\<close> starts it.
\<close>

theorem Timeout_variants_agree:
  "(Err ctx now = None \<longrightarrow>
      TimeoutWithPrecheck fn ctx arg now = Timeout fn ctx arg now \<and>
      started ` Timeout fn ctx arg now \<subseteq> {True}) \<and>
   (Err ctx now = Some e \<longrightarrow>
      TimeoutWithPrecheck fn ctx arg now =
        {\<lparr>returned = ([], Some e), returned_at = now, started = False, posted = None\<rparr>} \<and>
      started ` Timeout fn ctx arg now = {True})"
  by (auto simp add: Timeout_def TimeoutWithPrecheck_def Let_def done_case_def
      select_first_def Err_def image_iff split: option.splits if_splits)

theorem Timeout_variants_agree_witness:
  "TimeoutWithPrecheck slow_echo (deadline 5) ''x'' 0 = Timeout slow_echo (deadline 5) ''x'' 0 \<and>
   TimeoutWithPrecheck slow_echo (deadline 5) ''x'' 7 =
     {\<lparr>returned = ([], Some DeadlineExceeded), returned_at = 7, started = False,
       posted = None\<rparr>} \<and>
   started ` Timeout slow_echo (deadline 5) ''x'' 7 = {True}"
  using Timeout_variants_agree [where ctx = "deadline 5" and now = 0 and fn = slow_echo
      and arg = "''x''"]
    Timeout_variants_agree [where ctx = "deadline 5" and now = 7 and fn = slow_echo
      and arg = "''x''" and e = DeadlineExceeded]
  by (simp add: Err_def deadline_def)

section \<open>Properties of DebounceLast\<close>

text \<open>No timer function runs while less than the window passes after an arrival.\<close>

lemma advance_quiet:
  "int g < sint d \<Longrightarrow>
   advance circuit g \<lparr>timer = Armed (clock w + sint d), history = h\<rparr> w =
     (\<lparr>timer = Armed (clock w + sint d), history = h\<rparr>, w\<lparr>clock := clock w + int g\<rparr>)"
  by (simp add: advance_def Let_def)

lemma stop_previous_armed:
  "stop_previous t \<lparr>timer = Armed due,
      history = \<lparr>parent = c, entered = u, cancelled = None, delivered = None\<rparr> # h\<rparr> =
   \<lparr>parent = c, entered = u, cancelled = Some t, delivered = None\<rparr> # h"
  by (simp add: stop_previous_def cancel_call_def)

text \<open>
  The state after all calls of a burst have arrived, each less than the window after the
  one before: every call but the last has been cancelled by its successor at the
  successor's arrival and its timer never ran; the last call's timer is armed.
\<close>

lemma burst_closed:
  "\<forall>(c, g) \<in> set cs. int g < sint d \<Longrightarrow>
   burst circuit d (cs @ [(cl, gl)]) (s, w) =
     advance circuit gl
       \<lparr>timer = Armed (clock w + int (sum_list (map snd cs)) + sint d),
        history = \<lparr>parent = cl, entered = clock w + int (sum_list (map snd cs)),
                    cancelled = None, delivered = None\<rparr> #
                  rev (superseded cs (clock w)) @ stop_previous (clock w) s\<rparr>
       (w\<lparr>clock := clock w + int (sum_list (map snd cs))\<rparr>)"
proof (induction cs arbitrary: s w)
  case Nil
  then show ?case by (simp add: enter_def Add_def)
next
  case (Cons a cs)
  obtain c g where a: "a = (c, g)" by (cases a)
  have g: "int g < sint d" using Cons.prems a by simp
  have rest: "\<forall>(c, g) \<in> set cs. int g < sint d" using Cons.prems by simp
  let ?s1 = "\<lparr>timer = Armed (clock w + sint d),
      history = \<lparr>parent = c, entered = clock w, cancelled = None, delivered = None\<rparr> #
                stop_previous (clock w) s\<rparr>"
  let ?w1 = "w\<lparr>clock := clock w + int g\<rparr>"
  have step: "advance circuit g (enter d c s w) w = (?s1, ?w1)"
    using advance_quiet[OF g] by (simp add: enter_def Add_def)
  have "burst circuit d ((a # cs) @ [(cl, gl)]) (s, w) = burst circuit d (cs @ [(cl, gl)]) (?s1, ?w1)"
    by (simp add: a step)
  also have "\<dots> = advance circuit gl
       \<lparr>timer = Armed (clock ?w1 + int (sum_list (map snd cs)) + sint d),
        history = \<lparr>parent = cl, entered = clock ?w1 + int (sum_list (map snd cs)),
                    cancelled = None, delivered = None\<rparr> #
                  rev (superseded cs (clock ?w1)) @ stop_previous (clock ?w1) ?s1\<rparr>
       (?w1\<lparr>clock := clock ?w1 + int (sum_list (map snd cs))\<rparr>)"
    by (rule Cons.IH[OF rest])
  finally show ?case
    by (simp add: a stop_previous_armed add.assoc)
qed

text \<open>
  The error of a cancelled call's context: the parent's error if the parent was done by
  then, \<^verbatim>\<open>context.Canceled\<close> otherwise.
\<close>

lemma cause_cancelled:
  assumes "cancelled c = Some u"
  shows "cause (cctx_of c) =
           (case done_at (parent c) of
              None \<Rightarrow> Canceled
            | Some p \<Rightarrow> if p \<le> u then cause (parent c) else Canceled)"
  using assms by (simp add: cctx_of_def split: option.splits)

lemma superseded_records:
  "c \<in> set (superseded cs t) \<Longrightarrow> delivered c = None \<and> (\<exists>u. cancelled c = Some u)"
  by (induction cs t rule: superseded.induct) auto

lemma calls_advance_last:
  "calls (snd (advance circuit gl
      \<lparr>timer = Armed (t + sint d),
       history = \<lparr>parent = cl, entered = t, cancelled = None, delivered = None\<rparr> # h\<rparr>
      (w\<lparr>clock := t\<rparr>))) =
   calls w @ (if sint d \<le> int gl then [cl] else [])"
  by (simp add: advance_def Let_def fire_def cctx_of_def invoke_def split: prod.splits)

lemma history_advance_last:
  "\<exists>lastc. history (fst (advance circuit gl
      \<lparr>timer = Armed (t + sint d),
       history = \<lparr>parent = cl, entered = t, cancelled = None, delivered = None\<rparr> # h\<rparr>
      (w\<lparr>clock := t\<rparr>))) = lastc # h \<and> parent lastc = cl \<and> cancelled lastc = None"
  by (simp add: advance_def Let_def fire_def split: prod.splits)

text \<open>
  What holds of a burst of one or more calls, each arriving less than the window after
  the one before, on a debouncer in any state, followed by any quiet time: the operation
  is invoked at most once, namely once the quiet time after the last call reaches the
  window, and with the context of the last call; every earlier call of the burst was
  cancelled at the arrival of its successor and its timer never delivered anything to its
  channel.
\<close>

lemma burst_invokes_last_only:
  assumes "\<forall>(c, g) \<in> set cs. int g < sint d"
  shows "calls (snd (burst circuit d (cs @ [(cl, gl)]) (s, w))) =
           calls w @ (if sint d \<le> int gl then [cl] else []) \<and>
         (\<exists>lastc. history (fst (burst circuit d (cs @ [(cl, gl)]) (s, w))) =
                    lastc # rev (superseded cs (clock w)) @ stop_previous (clock w) s \<and>
                  parent lastc = cl \<and> cancelled lastc = None) \<and>
         (\<forall>c \<in> set (superseded cs (clock w)). delivered c = None \<and> cancelled c \<noteq> None)"
proof -
  have b: "burst circuit d (cs @ [(cl, gl)]) (s, w) =
     advance circuit gl
       \<lparr>timer = Armed (clock w + int (sum_list (map snd cs)) + sint d),
        history = \<lparr>parent = cl, entered = clock w + int (sum_list (map snd cs)),
                    cancelled = None, delivered = None\<rparr> #
                  rev (superseded cs (clock w)) @ stop_previous (clock w) s\<rparr>
       (w\<lparr>clock := clock w + int (sum_list (map snd cs))\<rparr>)"
    by (rule burst_closed[OF assms])
  have 1: "calls (snd (burst circuit d (cs @ [(cl, gl)]) (s, w))) =
           calls w @ (if sint d \<le> int gl then [cl] else [])"
    unfolding b by (rule calls_advance_last)
  have 2: "\<exists>lastc. history (fst (burst circuit d (cs @ [(cl, gl)]) (s, w))) =
                    lastc # rev (superseded cs (clock w)) @ stop_previous (clock w) s \<and>
                  parent lastc = cl \<and> cancelled lastc = None"
    unfolding b by (rule history_advance_last)
  have 3: "\<forall>c \<in> set (superseded cs (clock w)). delivered c = None \<and> cancelled c \<noteq> None"
    using superseded_records by blast
  show ?thesis
    using 1 2 3 by blast
qed

text \<open>
  What the caller of a superseded call returns. Its own context is done at the arrival of
  its successor \<open>n\<close> (its parent not being done before), and the \<^verbatim>\<open>cctx.Err()\<close> it then
  evaluates is the error of the successor's context, which the variable holds by then:
  \<^verbatim>\<open>nil\<close>, unless the successor's own context is already done.
\<close>

lemma superseded_returns_successor_error:
  assumes "done_at (parent c) = None" and "delivered c = None"
    and "cancelled c = Some (entered n)" and "entered c \<le> entered n"
  shows "returns_of (n # c # h) c = {(entered n, ([], Err (cctx_of n) (entered n)))}"
  using assms
  by (simp add: returns_of_def select_first_def cancelled_case_def shared_cctx_def cctx_of_def
      max_def)

text \<open>
  C7 (in a burst the operation runs at most once, with the last call's context, and every
  superseded call returns its own context's cancellation error). The first part holds.
  The second does not: the branch taken by a superseded caller returns \<^verbatim>\<open>cctx.Err()\<close> of
  the shared variable, which its successor has reassigned in the section that cancelled
  it. With a window of 100, a call at 0 and a second call at 5, both with a context that
  is never done, the operation is invoked once, with the second call's context; the first
  caller's own context reports \<^verbatim>\<open>context.Canceled\<close> from 5 on, but the caller returns the
  empty string with a \<^verbatim>\<open>nil\<close> error. When the second call brings a context whose deadline
  has passed, the first caller returns that call's \<^verbatim>\<open>context.DeadlineExceeded\<close>.
\<close>

theorem DebounceLast_superseded_reads_shared:
  "burst always_ok 100 [(background, 5), (background, 200)] (dl_init, world0) =
     (\<lparr>timer = Spent,
       history =
         [\<lparr>parent = background, entered = 5, cancelled = None,
            delivered = Some (106, (''ok'', None))\<rparr>,
          \<lparr>parent = background, entered = 0, cancelled = Some 5, delivered = None\<rparr>]\<rparr>,
      \<lparr>clock = 205, calls = [background], env = 1\<rparr>) \<and>
   Err (cctx_of \<lparr>parent = background, entered = 0, cancelled = Some 5, delivered = None\<rparr>) 5 =
     Some Canceled \<and>
   returns_of
     [\<lparr>parent = background, entered = 5, cancelled = None,
        delivered = Some (106, (''ok'', None))\<rparr>,
      \<lparr>parent = background, entered = 0, cancelled = Some 5, delivered = None\<rparr>]
     \<lparr>parent = background, entered = 0, cancelled = Some 5, delivered = None\<rparr> =
     {(5, ([], None))} \<and>
   burst always_ok 100 [(background, 5), (deadline 3, 200)] (dl_init, world0) =
     (\<lparr>timer = Spent,
       history =
         [\<lparr>parent = deadline 3, entered = 5, cancelled = None,
            delivered = Some (106, (''ok'', None))\<rparr>,
          \<lparr>parent = background, entered = 0, cancelled = Some 5, delivered = None\<rparr>]\<rparr>,
      \<lparr>clock = 205, calls = [deadline 3], env = 1\<rparr>) \<and>
   returns_of
     [\<lparr>parent = deadline 3, entered = 5, cancelled = None,
        delivered = Some (106, (''ok'', None))\<rparr>,
      \<lparr>parent = background, entered = 0, cancelled = Some 5, delivered = None\<rparr>]
     \<lparr>parent = background, entered = 0, cancelled = Some 5, delivered = None\<rparr> =
     {(5, ([], Some DeadlineExceeded))}"
  by (simp add: enter_def advance_def fire_def stop_previous_def cancel_call_def cctx_of_def
      invoke_def Add_def always_ok_def dl_init_def world0_def Let_def returns_of_def
      select_first_def cancelled_case_def shared_cctx_def Err_def background_def deadline_def)

end
